theory Spec2Isabelle
  imports Main "HOL-Library.Sublist"
begin

section \<open>Strings\<close>

text \<open>
  The script \<^verbatim>\<open>research/videos/analyze_transcripts.py\<close> works on Python \<^verbatim>\<open>str\<close> values.
  A Python string is modelled as a \<^typ>\<open>string\<close>, each \<^typ>\<open>char\<close> read as the Unicode code
  point of the same number (0 to 255, the Latin-1 range). On this range \<^verbatim>\<open>str.lower\<close> and
  \<^verbatim>\<open>str.strip\<close> are modelled exactly as CPython defines them; \<^verbatim>\<open>len\<close> counts code points,
  which is \<^const>\<open>length\<close> here.
\<close>

text \<open>
  \<^verbatim>\<open>str.isspace\<close> on one code point below 256: TAB, LF, VT, FF, CR, the separators
  FS, GS, RS, US, the space, NEL (0x85) and the no-break space (0xA0). These are the
  characters \<^verbatim>\<open>str.strip()\<close> removes.
\<close>

definition isspace :: "char \<Rightarrow> bool" where
  "isspace c =
     (let n = (of_char c :: nat)
      in (9 \<le> n \<and> n \<le> 13) \<or> (28 \<le> n \<and> n \<le> 32) \<or> n = 133 \<or> n = 160)"

text \<open>
  \<^verbatim>\<open>str.lower\<close> on one code point below 256: the ASCII capitals and the Latin-1 capitals
  (0xC0 to 0xDE but the multiplication sign 0xD7) move up by 32; every other code point
  is kept.
\<close>

definition char_lower :: "char \<Rightarrow> char" where
  "char_lower c =
     (let n = (of_char c :: nat)
      in if (65 \<le> n \<and> n \<le> 90) \<or> (192 \<le> n \<and> n \<le> 222 \<and> n \<noteq> 215)
         then char_of (n + 32) else c)"

definition lower :: "string \<Rightarrow> string" where
  "lower s = map char_lower s"

text \<open>\<^verbatim>\<open>s.strip()\<close>: the leading and the trailing whitespace are dropped.\<close>

definition strip :: "string \<Rightarrow> string" where
  "strip s = rev (dropWhile isspace (rev (dropWhile isspace s)))"

text \<open>
  \<^verbatim>\<open>keyword in sentence\<close> on two strings is the test for a contiguous occurrence, the
  library's \<^const>\<open>sublist\<close>: \<open>sublist k s\<close> holds when \<open>s = ps @ k @ ss\<close> for some
  \<open>ps\<close> and \<open>ss\<close>.
\<close>

section \<open>Splitting into sentences\<close>

text \<open>The character class \<^verbatim>\<open>[.!?]\<close> of the regular expression.\<close>

definition is_terminator :: "char \<Rightarrow> bool" where
  "is_terminator c = (c = CHR ''.'' \<or> c = CHR ''!'' \<or> c = CHR ''?'')"

text \<open>
  \<^verbatim>\<open>re.split(r'[.!?]', transcript_text)\<close>: the scan finds the next character of the class,
  cuts the piece before it, drops the character and goes on behind it; the rest after
  the last match is the last piece. A text of \<open>n\<close> matches gives \<open>n + 1\<close> pieces, some of
  them possibly empty.
\<close>

function re_split :: "string \<Rightarrow> string list" where
  "re_split s =
     (case dropWhile (\<lambda>c. \<not> is_terminator c) s of
        [] \<Rightarrow> [s]
      | _ # rest \<Rightarrow> takeWhile (\<lambda>c. \<not> is_terminator c) s # re_split rest)"
  by pat_completeness auto
termination
proof (relation "measure length")
  show "wf (measure length)" by simp
next
  fix s :: string and x rest
  assume "dropWhile (\<lambda>c. \<not> is_terminator c) s = x # rest"
  then have "length (x # rest) \<le> length s"
    using length_dropWhile_le [of "\<lambda>c. \<not> is_terminator c" s] by simp
  then show "(rest, s) \<in> measure length" by simp
qed

declare re_split.simps [simp del]

section \<open>The classifier\<close>

text \<open>
  The dictionary \<^verbatim>\<open>insights\<close> that \<^verbatim>\<open>extract_key_insights\<close> builds has six fixed keys; it is a
  record with one field per key.
\<close>

record insight_record =
  title :: string
  implementation_patterns :: "string list"
  performance_tips :: "string list"
  game_mechanics :: "string list"
  common_issues :: "string list"
  code_snippets :: "string list"

definition implementation_keywords :: "string list" where
  "implementation_keywords =
     [''setup'', ''initialize'', ''create'', ''implement'', ''code'', ''function'', ''class'',
      ''method'']"

definition performance_keywords :: "string list" where
  "performance_keywords =
     [''optimize'', ''performance'', ''fps'', ''frame rate'', ''latency'', ''speed'', ''fast'',
      ''efficient'']"

definition game_keywords :: "string list" where
  "game_keywords =
     [''game'', ''score'', ''player'', ''collision'', ''physics'', ''movement'', ''control'',
      ''input'']"

definition issue_keywords :: "string list" where
  "issue_keywords =
     [''problem'', ''issue'', ''error'', ''fix'', ''solution'', ''debug'', ''troubleshoot'',
      ''careful'']"

text \<open>\<^verbatim>\<open>any(keyword in sentence_lower for keyword in keywords)\<close>\<close>

definition any_keyword_in :: "string list \<Rightarrow> string \<Rightarrow> bool" where
  "any_keyword_in keywords sentence_lower =
     list_ex (\<lambda>keyword. sublist keyword sentence_lower) keywords"

text \<open>
  The body of the loop over the sentences: four keyword tests, each followed by the
  length test, and the test for code-like text on the sentence as it was split (neither
  lower-cased nor trimmed). No test depends on the outcome of another.
\<close>

definition classify_sentence :: "string \<Rightarrow> insight_record \<Rightarrow> insight_record" where
  "classify_sentence sentence insights =
     (let sentence_lower = strip (lower sentence);
          insights =
            (if any_keyword_in implementation_keywords sentence_lower
             then (if length (strip sentence) > 20
                   then insights\<lparr>implementation_patterns :=
                          implementation_patterns insights @ [strip sentence]\<rparr>
                   else insights)
             else insights);
          insights =
            (if any_keyword_in performance_keywords sentence_lower
             then (if length (strip sentence) > 20
                   then insights\<lparr>performance_tips :=
                          performance_tips insights @ [strip sentence]\<rparr>
                   else insights)
             else insights);
          insights =
            (if any_keyword_in game_keywords sentence_lower
             then (if length (strip sentence) > 20
                   then insights\<lparr>game_mechanics :=
                          game_mechanics insights @ [strip sentence]\<rparr>
                   else insights)
             else insights);
          insights =
            (if any_keyword_in issue_keywords sentence_lower
             then (if length (strip sentence) > 20
                   then insights\<lparr>common_issues :=
                          common_issues insights @ [strip sentence]\<rparr>
                   else insights)
             else insights)
      in if sublist ''const '' sentence \<or> sublist ''let '' sentence
            \<or> sublist ''function '' sentence \<or> sublist ''var '' sentence
         then insights\<lparr>code_snippets := code_snippets insights @ [strip sentence]\<rparr>
         else insights)"

definition extract_key_insights :: "string \<Rightarrow> string \<Rightarrow> insight_record" where
  "extract_key_insights transcript_text video_title =
     fold classify_sentence (re_split transcript_text)
       \<lparr>title = video_title, implementation_patterns = [], performance_tips = [],
        game_mechanics = [], common_issues = [], code_snippets = []\<rparr>"

section \<open>The catalogue and the orchestration\<close>

text \<open>
  \<^verbatim>\<open>VIDEO_IDS\<close> is a dictionary literal; \<^verbatim>\<open>.items()\<close> walks it in the order it is written, so
  it is a list of pairs of an identifier and a title.
\<close>

definition VIDEO_IDS :: "(string \<times> string) list" where
  "VIDEO_IDS =
     [(''OhMs-ipk8gE'', ''MediaPipe Pose Detection in JavaScript''),
      (''cc0H_sZrOiM'', ''Google MediaPipe Pose - JavaScript Tutorial''),
      (''FPD9YnxHJfE'', ''PoseNet Real-Time Pose Detection''),
      (''Iy4UQNZklyk'', ''Build AI Pose Estimation App''),
      (''9wy7P2GJvhE'', ''Pose Estimation Game Tutorial''),
      (''4c0pOJnt994'', ''Motion Capture Games with JavaScript''),
      (''pjAihwONJuI'', ''Gesture Recognition Gaming''),
      (''6CKjCLfL7FE'', ''Optimizing MediaPipe Performance''),
      (''T0kzis7cwJM'', ''Real-time Computer Vision Optimization'')]"

text \<open>
  In \<^verbatim>\<open>analyze_videos\<close> the record of a video gets two more keys, \<^verbatim>\<open>video_id\<close> and
  \<^verbatim>\<open>transcript_length\<close>, before it joins \<^verbatim>\<open>all_insights\<close>; the report reads both.
\<close>

record video_insights = insight_record +
  video_id :: string
  transcript_length :: nat

text \<open>
  The transcript service is outside the repository. It enters as two parameters:
  \<open>fetch\<close> for \<^verbatim>\<open>ytt_api.fetch(video_id, languages=['en'])\<close>, which gives the transcript as
  a list of segments or raises, and \<open>format_transcript\<close> for the formatter, which gives
  the text or raises. An exception (of class \<^verbatim>\<open>Exception\<close>, the class the handler
  catches) is \<open>Inl\<close> of its message. The body of the loop is one \<^verbatim>\<open>try\<close> block whose
  handler goes on with the next item, so each failure leaves \<^verbatim>\<open>all_insights\<close> as it was.
  The progress lines printed to the console are not modelled.
\<close>

definition analyze_item ::
  "(string \<Rightarrow> string + 'seg list) \<Rightarrow> ('seg list \<Rightarrow> string + string) \<Rightarrow>
   string \<times> string \<Rightarrow> video_insights list \<Rightarrow> video_insights list" where
  "analyze_item fetch format_transcript item all_insights =
     (case item of (vid, video_title) \<Rightarrow>
        (case fetch vid of
           Inl e \<Rightarrow> all_insights
         | Inr transcript \<Rightarrow>
             (case format_transcript transcript of
                Inl e \<Rightarrow> all_insights
              | Inr transcript_text \<Rightarrow>
                  (let insights = extract_key_insights transcript_text video_title
                   in all_insights @
                        [\<lparr>title = title insights,
                          implementation_patterns = implementation_patterns insights,
                          performance_tips = performance_tips insights,
                          game_mechanics = game_mechanics insights,
                          common_issues = common_issues insights,
                          code_snippets = code_snippets insights,
                          video_id = vid,
                          transcript_length = length transcript\<rparr>]))))"

text \<open>The loop of \<^verbatim>\<open>analyze_videos\<close> over any catalogue, and over the script's own.\<close>

definition analyze_catalog ::
  "(string \<Rightarrow> string + 'seg list) \<Rightarrow> ('seg list \<Rightarrow> string + string) \<Rightarrow>
   (string \<times> string) list \<Rightarrow> video_insights list" where
  "analyze_catalog fetch format_transcript catalog =
     fold (analyze_item fetch format_transcript) catalog []"

definition analyze_videos ::
  "(string \<Rightarrow> string + 'seg list) \<Rightarrow> ('seg list \<Rightarrow> string + string) \<Rightarrow>
   video_insights list" where
  "analyze_videos fetch format_transcript =
     analyze_catalog fetch format_transcript VIDEO_IDS"

section \<open>The report\<close>

text \<open>
  The headings of the report carry emoji, code points above 255. Each is written as the
  bytes of its UTF-8 encoding, the form in which the script's file holds it.
\<close>

definition emoji_bar_chart :: string where
  "emoji_bar_chart = [CHR 0xF0, CHR 0x9F, CHR 0x93, CHR 0x8A]"

definition emoji_direct_hit :: string where
  "emoji_direct_hit = [CHR 0xF0, CHR 0x9F, CHR 0x8E, CHR 0xAF]"

definition emoji_high_voltage :: string where
  "emoji_high_voltage = [CHR 0xE2, CHR 0x9A, CHR 0xA1]"

definition emoji_video_game :: string where
  "emoji_video_game = [CHR 0xF0, CHR 0x9F, CHR 0x8E, CHR 0xAE]"

definition emoji_warning :: string where
  "emoji_warning = [CHR 0xE2, CHR 0x9A, CHR 0xA0, CHR 0xEF, CHR 0xB8, CHR 0x8F]"

definition emoji_video_camera :: string where
  "emoji_video_camera = [CHR 0xF0, CHR 0x9F, CHR 0x93, CHR 0xB9]"

definition emoji_magnifying_glass :: string where
  "emoji_magnifying_glass = [CHR 0xF0, CHR 0x9F, CHR 0x94, CHR 0x8D]"

definition emoji_books :: string where
  "emoji_books = [CHR 0xF0, CHR 0x9F, CHR 0x93, CHR 0x9A]"

text \<open>\<^verbatim>\<open>str(n)\<close> for a length: the decimal digits, no sign and no leading zero.\<close>

function str_nat :: "nat \<Rightarrow> string" where
  "str_nat n =
     (if n < 10 then [char_of (48 + n)]
      else str_nat (n div 10) @ [char_of (48 + n mod 10)])"
  by pat_completeness auto
termination
  by (relation "measure id") simp_all

declare str_nat.simps [simp del]

text \<open>
  The first f-string of \<^verbatim>\<open>generate_markdown_report\<close>. The formatted time of the call,
  \<^verbatim>\<open>datetime.now().strftime('%Y-%m-%d %H:%M:%S')\<close>, is the parameter \<open>now\<close>.
\<close>

definition report_header :: "string \<Rightarrow> nat \<Rightarrow> string" where
  "report_header now n =
     ''# YouTube Video Analysis: Pose Detection Gaming\<newline>'' @
     ''*Generated on '' @ now @ ''*\<newline>'' @
     ''\<newline>'' @
     ''## '' @ emoji_bar_chart @ '' Analysis Summary\<newline>'' @
     ''\<newline>'' @
     ''Analyzed '' @ str_nat n @ '' videos about pose detection in gaming applications.\<newline>'' @
     ''\<newline>'' @
     ''## '' @ emoji_direct_hit @ '' Key Implementation Patterns\<newline>'' @
     ''\<newline>''"

definition performance_heading :: string where
  "performance_heading =
     ''\<newline>## '' @ emoji_high_voltage @ '' Performance Optimization Tips\<newline>\<newline>''"

definition game_heading :: string where
  "game_heading =
     ''\<newline>## '' @ emoji_video_game @ '' Game Mechanics Insights\<newline>\<newline>''"

definition issues_heading :: string where
  "issues_heading =
     ''\<newline>## '' @ emoji_warning @ '' Common Issues and Solutions\<newline>\<newline>''"

definition summaries_heading :: string where
  "summaries_heading =
     ''\<newline>## '' @ emoji_video_camera @ '' Video Summaries\<newline>\<newline>''"

text \<open>The last string literal of the function, appended whatever the data.\<close>

definition static_sections :: string where
  "static_sections =
     ''\<newline>'' @
     ''## '' @ emoji_magnifying_glass @ '' Key Takeaways for Our Project\<newline>'' @
     ''\<newline>'' @
     ''Based on the analysis of these videos, here are the most important insights for our pose detection game:\<newline>'' @
     ''\<newline>'' @
     ''1. **Use MediaPipe over PoseNet** - Multiple videos emphasize MediaPipe's superior performance\<newline>'' @
     ''2. **Implement pose smoothing** - Essential for stable gameplay experience\<newline>'' @
     ''3. **Optimize detection zones** - Focus on specific body parts relevant to game mechanics\<newline>'' @
     ''4. **Add visual feedback** - Show skeleton overlay and detection confidence\<newline>'' @
     ''5. **Handle edge cases** - Account for partial visibility and multiple people\<newline>'' @
     ''6. **Test different lighting** - Pose detection accuracy varies with lighting conditions\<newline>'' @
     ''7. **Consider mobile performance** - Reduce model complexity for mobile devices\<newline>'' @
     ''8. **Add calibration phase** - Let players adjust their position before starting\<newline>'' @
     ''9. **Use confidence thresholds** - Filter out low-confidence detections\<newline>'' @
     ''10. **Implement gesture debouncing** - Prevent accidental repeated actions\<newline>'' @
     ''\<newline>'' @
     ''## '' @ emoji_books @ '' Recommended Implementation Order\<newline>'' @
     ''\<newline>'' @
     ''1. Set up basic MediaPipe pose detection\<newline>'' @
     ''2. Implement pose landmark visualization\<newline>'' @
     ''3. Create simple gesture recognition (e.g., hands up)\<newline>'' @
     ''4. Add game mechanics tied to specific poses\<newline>'' @
     ''5. Implement score system and feedback\<newline>'' @
     ''6. Optimize performance and add smoothing\<newline>'' @
     ''7. Add multiplayer support if needed\<newline>'' @
     ''8. Polish with effects and sound\<newline>''"

text \<open>
  \<^verbatim>\<open>for video in insights_data: all_items.extend(video[key])\<close>, the pool of one category
  over all records, in the order of the records.
\<close>

definition extend_all :: "('r \<Rightarrow> string list) \<Rightarrow> 'r list \<Rightarrow> string list" where
  "extend_all field insights_data =
     fold (\<lambda>video all_items. all_items @ field video) insights_data []"

text \<open>\<^verbatim>\<open>for item in unique_items: report += f"- {item}\n"\<close>, one bullet for each item.\<close>

definition add_bullets :: "string list \<Rightarrow> string \<Rightarrow> string" where
  "add_bullets unique_items report =
     fold (\<lambda>item report. report @ ''- '' @ item @ ''\<newline>'') unique_items report"

text \<open>The body of the loop that writes the summary of each video.\<close>

definition add_summary :: "video_insights \<Rightarrow> string \<Rightarrow> string" where
  "add_summary video report =
     (let report = report @ ''### '' @ title video @ ''\<newline>'';
          report = report @ ''- **Video ID**: '' @ video_id video @ ''\<newline>'';
          report = report @ ''- **Transcript Length**: ''
                     @ str_nat (transcript_length video) @ '' segments\<newline>'';
          report = report @ ''- **Key Insights**: ''
                     @ str_nat (length (implementation_patterns video)) @ '' patterns, '';
          report = report @ str_nat (length (performance_tips video)) @ '' tips, ''
                     @ str_nat (length (game_mechanics video)) @ '' mechanics\<newline>\<newline>''
      in report)"

text \<open>
  \<^verbatim>\<open>list(set(all_items))\<close> lists each different sentence of the pool once, in the order in
  which the interpreter walks its hash table; the script fixes no order. The listing is
  the parameter \<open>list_set\<close> of the report; all that is known of it is
  \<open>set_semantics\<close>.
\<close>

definition set_semantics :: "(string list \<Rightarrow> string list) \<Rightarrow> bool" where
  "set_semantics list_set = (\<forall>xs. distinct (list_set xs) \<and> set (list_set xs) = set xs)"

definition generate_markdown_report ::
  "(string list \<Rightarrow> string list) \<Rightarrow> string \<Rightarrow> video_insights list \<Rightarrow> string" where
  "generate_markdown_report list_set now insights_data =
     (let report = report_header now (length insights_data);
          all_patterns = extend_all implementation_patterns insights_data;
          unique_patterns = take 10 (list_set all_patterns);
          report = add_bullets unique_patterns report;
          report = report @ performance_heading;
          all_tips = extend_all performance_tips insights_data;
          unique_tips = take 10 (list_set all_tips);
          report = add_bullets unique_tips report;
          report = report @ game_heading;
          all_mechanics = extend_all game_mechanics insights_data;
          unique_mechanics = take 10 (list_set all_mechanics);
          report = add_bullets unique_mechanics report;
          report = report @ issues_heading;
          all_issues = extend_all common_issues insights_data;
          unique_issues = take 10 (list_set all_issues);
          report = add_bullets unique_issues report;
          report = report @ summaries_heading;
          report = fold add_summary insights_data report;
          report = report @ static_sections
      in report)"

section \<open>Notions used to state the properties\<close>

text \<open>
  Putting the pieces of a split back together: after each piece but the last comes one
  of the separators, in their order.
\<close>

fun rejoin :: "string list \<Rightarrow> string \<Rightarrow> string" where
  "rejoin (p # ps) (c # cs) = p @ c # rejoin ps cs"
| "rejoin ps cs = concat ps"

text \<open>The text of a run of bullets, and of the summary of one video.\<close>

definition bullet_lines :: "string list \<Rightarrow> string" where
  "bullet_lines items = concat (map (\<lambda>item. ''- '' @ item @ ''\<newline>'') items)"

definition summary_text :: "video_insights \<Rightarrow> string" where
  "summary_text video =
     ''### '' @ title video @ ''\<newline>'' @
     ''- **Video ID**: '' @ video_id video @ ''\<newline>'' @
     ''- **Transcript Length**: '' @ str_nat (transcript_length video) @ '' segments\<newline>'' @
     ''- **Key Insights**: '' @ str_nat (length (implementation_patterns video)) @ '' patterns, '' @
     str_nat (length (performance_tips video)) @ '' tips, '' @
     str_nat (length (game_mechanics video)) @ '' mechanics\<newline>\<newline>''"

text \<open>
  The bullets of one aggregate section: the pool of the category over all records,
  listed as a set, cut to its first ten.
\<close>

definition section_items ::
  "(string list \<Rightarrow> string list) \<Rightarrow> (video_insights \<Rightarrow> string list) \<Rightarrow>
   video_insights list \<Rightarrow> string list" where
  "section_items list_set field insights_data =
     take 10 (list_set (concat (map field insights_data)))"

text \<open>
  What sends a sentence to a keyword category: a keyword of the category occurs in its
  lower-cased, trimmed copy, and its trimmed original has more than 20 characters.
\<close>

definition qualifies :: "string list \<Rightarrow> string \<Rightarrow> bool" where
  "qualifies keywords sentence =
     ((\<exists>keyword \<in> set keywords. sublist keyword (strip (lower sentence)))
      \<and> 20 < length (strip sentence))"

text \<open>What sends a sentence to the code snippets.\<close>

definition code_like :: "string \<Rightarrow> bool" where
  "code_like sentence =
     (\<exists>token \<in> set [''const '', ''let '', ''function '', ''var '']. sublist token sentence)"

text \<open>
  The returned markdown read as text. \<open>lines_of\<close> cuts a string at its line feeds. The
  heading line of an aggregate section is the line that opens it; the section runs from
  there to the next line that starts a heading of level two. A bullet row is a line of the
  section that starts with \<^verbatim>\<open>- \<close>; \<open>bullet_rows\<close> counts them.
\<close>

fun lines_of :: "string \<Rightarrow> string list" where
  "lines_of [] = [[]]"
| "lines_of (c # cs) =
     (if c = CHR 0x0A then [] # lines_of cs
      else (case lines_of cs of [] \<Rightarrow> [[c]] | l # ls \<Rightarrow> (c # l) # ls))"

definition patterns_heading_line :: string where
  "patterns_heading_line = ''## '' @ emoji_direct_hit @ '' Key Implementation Patterns''"

definition performance_heading_line :: string where
  "performance_heading_line = ''## '' @ emoji_high_voltage @ '' Performance Optimization Tips''"

definition game_heading_line :: string where
  "game_heading_line = ''## '' @ emoji_video_game @ '' Game Mechanics Insights''"

definition issues_heading_line :: string where
  "issues_heading_line = ''## '' @ emoji_warning @ '' Common Issues and Solutions''"

definition section_lines :: "string \<Rightarrow> string list \<Rightarrow> string list" where
  "section_lines heading_line ls =
     takeWhile (\<lambda>l. \<not> prefix ''## '' l) (tl (dropWhile (\<lambda>l. l \<noteq> heading_line) ls))"

definition bullet_rows :: "string \<Rightarrow> string \<Rightarrow> nat" where
  "bullet_rows heading_line report =
     length (filter (prefix ''- '') (section_lines heading_line (lines_of report)))"

text \<open>A string with no line feed.\<close>

definition one_line :: "string \<Rightarrow> bool" where
  "one_line s = (CHR 0x0A \<notin> set s)"

text \<open>A string with no whitespace at either end.\<close>

definition trimmed :: "string \<Rightarrow> bool" where
  "trimmed s = (s = [] \<or> (\<not> isspace (hd s) \<and> \<not> isspace (last s)))"

section \<open>Splitting\<close>

lemma re_split_cut:
  assumes "dropWhile (\<lambda>c. \<not> is_terminator c) s = x # rest"
  shows "re_split s = takeWhile (\<lambda>c. \<not> is_terminator c) s # re_split rest"
  by (subst re_split.simps) (simp only: assms list.case)

lemma re_split_last:
  assumes "dropWhile (\<lambda>c. \<not> is_terminator c) s = []"
  shows "re_split s = [s]"
  by (subst re_split.simps) (simp only: assms list.case)

lemma re_split_plain:
  assumes "\<forall>c \<in> set s. \<not> is_terminator c"
  shows "re_split s = [s]"
proof -
  from assms have "dropWhile (\<lambda>c. \<not> is_terminator c) s = []" by simp
  then show ?thesis by (rule re_split_last)
qed

lemma filter_takeWhile_not: "filter P (takeWhile (\<lambda>c. \<not> P c) s) = []"
  by (induction s) auto

lemma terminators_cut:
  assumes "dropWhile (\<lambda>c. \<not> is_terminator c) s = x # rest"
  shows "is_terminator x"
    and "s = takeWhile (\<lambda>c. \<not> is_terminator c) s @ x # rest"
    and "filter is_terminator s = x # filter is_terminator rest"
proof -
  let ?tw = "takeWhile (\<lambda>c. \<not> is_terminator c) s"
  show x: "is_terminator x"
    using hd_dropWhile [of "\<lambda>c. \<not> is_terminator c" s] assms by simp
  show s: "s = ?tw @ x # rest"
    using takeWhile_dropWhile_id [of "\<lambda>c. \<not> is_terminator c" s] assms by simp
  have "filter is_terminator s = filter is_terminator (?tw @ x # rest)"
    using s by simp
  then show "filter is_terminator s = x # filter is_terminator rest"
    using x by (simp add: filter_takeWhile_not)
qed

lemma re_split_pieces:
  "\<forall>p \<in> set (re_split s). \<forall>c \<in> set p. \<not> is_terminator c"
proof (induction s rule: re_split.induct)
  case (1 s)
  show ?case
  proof (cases "dropWhile (\<lambda>c. \<not> is_terminator c) s")
    case Nil
    then have "\<forall>c \<in> set s. \<not> is_terminator c" by simp
    with Nil show ?thesis by (simp add: re_split_last)
  next
    case (Cons x rest)
    with 1 have "\<forall>p \<in> set (re_split rest). \<forall>c \<in> set p. \<not> is_terminator c" by simp
    moreover have "\<forall>c \<in> set (takeWhile (\<lambda>c. \<not> is_terminator c) s). \<not> is_terminator c"
      by (auto dest: set_takeWhileD)
    ultimately show ?thesis
      by (simp add: re_split_cut [OF Cons])
  qed
qed

lemma rejoin_re_split: "rejoin (re_split s) (filter is_terminator s) = s"
proof (induction s rule: re_split.induct)
  case (1 s)
  show ?case
  proof (cases "dropWhile (\<lambda>c. \<not> is_terminator c) s")
    case Nil
    then have "\<forall>c \<in> set s. \<not> is_terminator c" by simp
    then have "filter is_terminator s = []" by (simp add: filter_empty_conv)
    with Nil show ?thesis by (simp add: re_split_last)
  next
    case (Cons x rest)
    from 1 Cons have "rejoin (re_split rest) (filter is_terminator rest) = rest" by simp
    then have "rejoin (re_split s) (filter is_terminator s)
                 = takeWhile (\<lambda>c. \<not> is_terminator c) s @ x # rest"
      by (simp add: re_split_cut [OF Cons] terminators_cut(3) [OF Cons])
    with terminators_cut(2) [OF Cons] show ?thesis by simp
  qed
qed

lemma length_re_split: "length (re_split s) = Suc (length (filter is_terminator s))"
proof (induction s rule: re_split.induct)
  case (1 s)
  show ?case
  proof (cases "dropWhile (\<lambda>c. \<not> is_terminator c) s")
    case Nil
    then have "\<forall>c \<in> set s. \<not> is_terminator c" by simp
    then have "filter is_terminator s = []" by (simp add: filter_empty_conv)
    with Nil show ?thesis by (simp add: re_split_last)
  next
    case (Cons x rest)
    from 1 Cons have "length (re_split rest) = Suc (length (filter is_terminator rest))"
      by simp
    then show ?thesis
      by (simp add: re_split_cut [OF Cons] terminators_cut(3) [OF Cons])
  qed
qed

text \<open>
  C3. \<^verbatim>\<open>extract_key_insights\<close> cuts the text exactly at the characters \<^verbatim>\<open>.\<close>, \<^verbatim>\<open>!\<close> and
  \<^verbatim>\<open>?\<close>: the pieces hold none of them, there is one piece more than there are such
  characters, and the pieces with these characters put back between them are the text.
  A text with none of the three characters gives one piece, the whole text.
\<close>

theorem re_split_exact:
  "rejoin (re_split transcript_text) (filter is_terminator transcript_text) = transcript_text
   \<and> length (re_split transcript_text) = Suc (length (filter is_terminator transcript_text))
   \<and> (\<forall>piece \<in> set (re_split transcript_text). \<forall>c \<in> set piece. \<not> is_terminator c)
   \<and> ((\<forall>c \<in> set transcript_text. \<not> is_terminator c)
        \<longrightarrow> re_split transcript_text = [transcript_text])"
  using rejoin_re_split length_re_split re_split_pieces re_split_plain by blast

theorem re_split_exact_witness:
  "re_split ''no punctuation here'' = [''no punctuation here'']
   \<and> re_split ''Stop. Go! Why? end'' = [''Stop'', '' Go'', '' Why'', '' end'']
   \<and> rejoin [''Stop'', '' Go'', '' Why'', '' end''] ''.!?'' = ''Stop. Go! Why? end''"
proof -
  have plain: "\<forall>c \<in> set ''no punctuation here''. \<not> is_terminator c"
    by (simp add: is_terminator_def)
  have cut: "re_split ''Stop. Go! Why? end'' = [''Stop'', '' Go'', '' Why'', '' end'']"
    by code_simp
  have seps: "filter is_terminator ''Stop. Go! Why? end'' = ''.!?''"
    by (simp add: is_terminator_def)
  from re_split_exact [of "''no punctuation here''"] plain
  have "re_split ''no punctuation here'' = [''no punctuation here'']" by blast
  moreover from re_split_exact [of "''Stop. Go! Why? end''"]
  have "rejoin [''Stop'', '' Go'', '' Why'', '' end''] ''.!?'' = ''Stop. Go! Why? end''"
    unfolding cut seps by blast
  ultimately show ?thesis using cut by simp
qed

section \<open>Trimming\<close>

lemma dropWhile_snoc_keep:
  "\<not> P x \<Longrightarrow> dropWhile P (ys @ [x]) = dropWhile P ys @ [x]"
  by (induction ys) simp_all

lemma strip_subset: "set (strip s) \<subseteq> set s"
proof
  fix c assume "c \<in> set (strip s)"
  then have "c \<in> set (dropWhile isspace (rev (dropWhile isspace s)))"
    by (simp add: strip_def)
  then have "c \<in> set (rev (dropWhile isspace s))" by (rule set_dropWhileD)
  then have "c \<in> set (dropWhile isspace s)" by simp
  then show "c \<in> set s" by (rule set_dropWhileD)
qed

lemma trimmed_strip: "trimmed (strip s)"
proof (cases "dropWhile isspace s")
  case Nil
  have "strip s = rev (dropWhile isspace (rev (dropWhile isspace s)))"
    by (simp only: strip_def)
  also have "\<dots> = []" by (simp only: Nil rev.simps dropWhile.simps)
  finally show ?thesis by (simp add: trimmed_def)
next
  case (Cons x t)
  then have x: "\<not> isspace x"
    using hd_dropWhile [of isspace s] by simp
  define u where "u = dropWhile isspace (rev (x # t))"
  have u: "u = dropWhile isspace (rev t) @ [x]"
    using x by (simp add: u_def dropWhile_snoc_keep)
  then have "u \<noteq> []" by simp
  then have "\<not> isspace (hd u)"
    unfolding u_def by (rule hd_dropWhile)
  moreover have "last u = x" using u by simp
  moreover have "strip s = rev u" by (simp add: strip_def Cons u_def)
  ultimately show ?thesis
    using x \<open>u \<noteq> []\<close> by (simp add: trimmed_def hd_rev last_rev)
qed

section \<open>The classifier\<close>

lemma any_keyword_in_iff:
  "any_keyword_in keywords s \<longleftrightarrow> (\<exists>keyword \<in> set keywords. sublist keyword s)"
  by (simp add: any_keyword_in_def list_ex_iff)

lemma classify_implementation_patterns:
  "implementation_patterns (classify_sentence s r) =
     implementation_patterns r @ (if qualifies implementation_keywords s then [strip s] else [])"
  by (simp add: classify_sentence_def Let_def qualifies_def any_keyword_in_iff)

lemma classify_performance_tips:
  "performance_tips (classify_sentence s r) =
     performance_tips r @ (if qualifies performance_keywords s then [strip s] else [])"
  by (simp add: classify_sentence_def Let_def qualifies_def any_keyword_in_iff)

lemma classify_game_mechanics:
  "game_mechanics (classify_sentence s r) =
     game_mechanics r @ (if qualifies game_keywords s then [strip s] else [])"
  by (simp add: classify_sentence_def Let_def qualifies_def any_keyword_in_iff)

lemma classify_common_issues:
  "common_issues (classify_sentence s r) =
     common_issues r @ (if qualifies issue_keywords s then [strip s] else [])"
  by (simp add: classify_sentence_def Let_def qualifies_def any_keyword_in_iff)

lemma classify_code_snippets:
  "code_snippets (classify_sentence s r) =
     code_snippets r @ (if code_like s then [strip s] else [])"
  by (simp add: classify_sentence_def Let_def code_like_def)

lemma classify_title: "title (classify_sentence s r) = title r"
  by (simp add: classify_sentence_def Let_def)

lemma fold_implementation_patterns:
  "implementation_patterns (fold classify_sentence ss r) =
     implementation_patterns r @ map strip (filter (qualifies implementation_keywords) ss)"
  by (induction ss arbitrary: r) (simp_all add: classify_implementation_patterns)

lemma fold_performance_tips:
  "performance_tips (fold classify_sentence ss r) =
     performance_tips r @ map strip (filter (qualifies performance_keywords) ss)"
  by (induction ss arbitrary: r) (simp_all add: classify_performance_tips)

lemma fold_game_mechanics:
  "game_mechanics (fold classify_sentence ss r) =
     game_mechanics r @ map strip (filter (qualifies game_keywords) ss)"
  by (induction ss arbitrary: r) (simp_all add: classify_game_mechanics)

lemma fold_common_issues:
  "common_issues (fold classify_sentence ss r) =
     common_issues r @ map strip (filter (qualifies issue_keywords) ss)"
  by (induction ss arbitrary: r) (simp_all add: classify_common_issues)

lemma fold_code_snippets:
  "code_snippets (fold classify_sentence ss r) =
     code_snippets r @ map strip (filter code_like ss)"
  by (induction ss arbitrary: r) (simp_all add: classify_code_snippets)

lemma fold_title: "title (fold classify_sentence ss r) = title r"
  by (induction ss arbitrary: r) (simp_all add: classify_title)

lemma extract_key_insights_fields:
  "implementation_patterns (extract_key_insights s t) =
     map strip (filter (qualifies implementation_keywords) (re_split s))"
  "performance_tips (extract_key_insights s t) =
     map strip (filter (qualifies performance_keywords) (re_split s))"
  "game_mechanics (extract_key_insights s t) =
     map strip (filter (qualifies game_keywords) (re_split s))"
  "common_issues (extract_key_insights s t) =
     map strip (filter (qualifies issue_keywords) (re_split s))"
  "code_snippets (extract_key_insights s t) = map strip (filter code_like (re_split s))"
  "title (extract_key_insights s t) = t"
  by (simp_all add: extract_key_insights_def fold_implementation_patterns
        fold_performance_tips fold_game_mechanics fold_common_issues fold_code_snippets
        fold_title)

text \<open>
  C1. Whatever the text and the label, each of the four keyword categories of the record
  holds, in the order of the text, the trimmed form of exactly those candidate sentences
  that qualify for it: a keyword of the category occurs in the lower-cased, trimmed copy
  and the trimmed original is longer than 20 characters. The four tests are independent,
  so a sentence that qualifies for several categories is in each of them.
\<close>

theorem extract_key_insights_categories:
  "implementation_patterns (extract_key_insights transcript_text video_title) =
     map strip (filter (qualifies implementation_keywords) (re_split transcript_text))
   \<and> performance_tips (extract_key_insights transcript_text video_title) =
     map strip (filter (qualifies performance_keywords) (re_split transcript_text))
   \<and> game_mechanics (extract_key_insights transcript_text video_title) =
     map strip (filter (qualifies game_keywords) (re_split transcript_text))
   \<and> common_issues (extract_key_insights transcript_text video_title) =
     map strip (filter (qualifies issue_keywords) (re_split transcript_text))"
  by (simp add: extract_key_insights_fields)

theorem extract_key_insights_categories_witness:
  "map strip (filter (qualifies implementation_keywords)
       (re_split ''Now we create the player score counter! It is fast'')) =
     [''Now we create the player score counter'']
   \<and> map strip (filter (qualifies game_keywords)
       (re_split ''Now we create the player score counter! It is fast'')) =
     [''Now we create the player score counter'']
   \<and> map strip (filter (qualifies performance_keywords)
       (re_split ''Now we create the player score counter! It is fast'')) = []"
proof -
  let ?r = "extract_key_insights ''Now we create the player score counter! It is fast'' ''Demo''"
  have "implementation_patterns ?r = [''Now we create the player score counter'']"
    by code_simp
  moreover have "game_mechanics ?r = [''Now we create the player score counter'']"
    by code_simp
  moreover have "performance_tips ?r = []"
    by code_simp
  ultimately show ?thesis
    using extract_key_insights_categories
            [of "''Now we create the player score counter! It is fast''" "''Demo''"]
    by simp
qed

text \<open>
  C2. Whatever the text, the code snippets of the record are the trimmed forms of exactly
  those candidate sentences that contain one of \<^verbatim>\<open>"const "\<close>, \<^verbatim>\<open>"let "\<close>, \<^verbatim>\<open>"function "\<close>
  and \<^verbatim>\<open>"var "\<close>, the test being made on the sentence as it was split. No length is asked
  for: the text \<^verbatim>\<open>let x\<close> gives a snippet of five characters.
\<close>

theorem extract_key_insights_code_snippets:
  "code_snippets (extract_key_insights transcript_text video_title) =
     map strip (filter code_like (re_split transcript_text))
   \<and> code_snippets (extract_key_insights ''let x'' video_title) = [''let x'']
   \<and> length ''let x'' \<le> 20"
proof -
  note general = extract_key_insights_fields(5)
  have "re_split ''let x'' = [''let x'']" by code_simp
  moreover have "code_like ''let x''" by code_simp
  moreover have "strip ''let x'' = ''let x''" by code_simp
  ultimately have "map strip (filter code_like (re_split ''let x'')) = [''let x'']"
    by simp
  with general show ?thesis by simp
qed

theorem extract_key_insights_code_snippets_witness:
  "map strip (filter code_like (re_split ''Write const x = 1! Then stop'')) = [''Write const x = 1'']"
proof -
  have "code_snippets (extract_key_insights ''Write const x = 1! Then stop'' ''Demo'')
          = [''Write const x = 1'']"
    by code_simp
  then show ?thesis
    using extract_key_insights_code_snippets [of "''Write const x = 1! Then stop''" "''Demo''"]
    by simp
qed

text \<open>
  C4. The example of the specification: the text \<^verbatim>\<open>We need to optimize performance for the
  game. Initialize the player position carefully.\<close> with the label \<^verbatim>\<open>Demo\<close>.
\<close>

theorem extract_key_insights_demo:
  "extract_key_insights
     ''We need to optimize performance for the game. Initialize the player position carefully.''
     ''Demo'' =
   \<lparr>title = ''Demo'',
    implementation_patterns = [''Initialize the player position carefully''],
    performance_tips = [''We need to optimize performance for the game''],
    game_mechanics = [''We need to optimize performance for the game'',
                      ''Initialize the player position carefully''],
    common_issues = [''Initialize the player position carefully''],
    code_snippets = []\<rparr>"
  by code_simp

text \<open>
  C7. The empty text gives, for every label, the record with the label and five empty
  sequences. The function has no failing branch: it is total.
\<close>

theorem extract_key_insights_empty:
  "extract_key_insights [] video_title =
   \<lparr>title = video_title, implementation_patterns = [], performance_tips = [],
    game_mechanics = [], common_issues = [], code_snippets = []\<rparr>"
proof -
  have "re_split [] = [[]]" by (simp add: re_split_last)
  moreover have "strip [] = []" by (simp add: strip_def)
  moreover have "\<not> qualifies kws []" for kws
    by (simp add: qualifies_def \<open>strip [] = []\<close>)
  moreover have "\<not> code_like []" by (simp add: code_like_def)
  ultimately show ?thesis
    by (simp add: extract_key_insights_def classify_sentence_def Let_def lower_def
          any_keyword_in_iff qualifies_def code_like_def)
qed

lemma stored_clean:
  assumes "s \<in> set (map strip (filter P (re_split transcript_text)))"
  shows "trimmed s \<and> (\<forall>c \<in> set s. \<not> is_terminator c)"
proof -
  from assms obtain piece where piece: "piece \<in> set (re_split transcript_text)" "s = strip piece"
    by auto
  have "trimmed s" using piece(2) by (simp add: trimmed_strip)
  moreover have "\<forall>c \<in> set s. \<not> is_terminator c"
    using piece re_split_pieces [of transcript_text] strip_subset [of piece] by blast
  ultimately show ?thesis by simp
qed

text \<open>
  C9. Every string in any of the five sequences of the record has no whitespace at
  either end and holds none of the characters \<^verbatim>\<open>.\<close>, \<^verbatim>\<open>!\<close> and \<^verbatim>\<open>?\<close>.
\<close>

theorem extract_key_insights_stored_clean:
  "\<forall>s \<in> set (implementation_patterns (extract_key_insights transcript_text video_title))
        \<union> set (performance_tips (extract_key_insights transcript_text video_title))
        \<union> set (game_mechanics (extract_key_insights transcript_text video_title))
        \<union> set (common_issues (extract_key_insights transcript_text video_title))
        \<union> set (code_snippets (extract_key_insights transcript_text video_title)).
     trimmed s \<and> (\<forall>c \<in> set s. \<not> is_terminator c)"
proof
  fix s
  let ?r = "extract_key_insights transcript_text video_title"
  assume "s \<in> set (implementation_patterns ?r) \<union> set (performance_tips ?r)
            \<union> set (game_mechanics ?r) \<union> set (common_issues ?r) \<union> set (code_snippets ?r)"
  then consider "s \<in> set (implementation_patterns ?r)" | "s \<in> set (performance_tips ?r)"
    | "s \<in> set (game_mechanics ?r)" | "s \<in> set (common_issues ?r)"
    | "s \<in> set (code_snippets ?r)"
    by blast
  then show "trimmed s \<and> (\<forall>c \<in> set s. \<not> is_terminator c)"
  proof cases
    case 1
    then show ?thesis unfolding extract_key_insights_fields by (rule stored_clean)
  next
    case 2
    then show ?thesis unfolding extract_key_insights_fields by (rule stored_clean)
  next
    case 3
    then show ?thesis unfolding extract_key_insights_fields by (rule stored_clean)
  next
    case 4
    then show ?thesis unfolding extract_key_insights_fields by (rule stored_clean)
  next
    case 5
    then show ?thesis unfolding extract_key_insights_fields by (rule stored_clean)
  qed
qed

theorem extract_key_insights_stored_clean_witness:
  "trimmed ''Fix the input error in the setup'' 
   \<and> list_all (\<lambda>c. \<not> is_terminator c) ''Fix the input error in the setup''"
proof -
  have "''Fix the input error in the setup''
          \<in> set (common_issues
                   (extract_key_insights ''Ready?   Fix the input error in the setup  ! Done.'' ''Demo''))"
    by code_simp
  then show ?thesis
    using extract_key_insights_stored_clean
            [of "''Ready?   Fix the input error in the setup  ! Done.''" "''Demo''"]
    unfolding list_all_iff by blast
qed

section \<open>The report\<close>

lemma fold_extend:
  "fold (\<lambda>video all_items. all_items @ field video) insights_data acc =
     acc @ concat (map field insights_data)"
  by (induction insights_data arbitrary: acc) simp_all

lemma extend_all_concat: "extend_all field insights_data = concat (map field insights_data)"
  by (simp add: extend_all_def fold_extend)

lemma add_bullets_eq: "add_bullets unique_items report = report @ bullet_lines unique_items"
  unfolding add_bullets_def bullet_lines_def
  by (induction unique_items arbitrary: report) simp_all

lemma add_summary_eq: "add_summary video report = report @ summary_text video"
  by (simp add: add_summary_def summary_text_def Let_def)

lemma fold_add_summary:
  "fold add_summary insights_data report = report @ concat (map summary_text insights_data)"
  by (induction insights_data arbitrary: report) (simp_all add: add_summary_eq)

lemma report_layout:
  "generate_markdown_report list_set now insights_data =
     report_header now (length insights_data)
     @ bullet_lines (section_items list_set implementation_patterns insights_data)
     @ performance_heading
     @ bullet_lines (section_items list_set performance_tips insights_data)
     @ game_heading
     @ bullet_lines (section_items list_set game_mechanics insights_data)
     @ issues_heading
     @ bullet_lines (section_items list_set common_issues insights_data)
     @ summaries_heading
     @ concat (map summary_text insights_data)
     @ static_sections"
  by (simp add: generate_markdown_report_def Let_def extend_all_concat add_bullets_eq
        fold_add_summary section_items_def)

lemma set_semantics_remdups: "set_semantics remdups"
  by (simp add: set_semantics_def)

lemma section_items_distinct:
  "set_semantics list_set \<Longrightarrow> distinct (section_items list_set field insights_data)"
  by (simp add: section_items_def set_semantics_def)

lemma set_semantics_Nil: "set_semantics list_set \<Longrightarrow> list_set [] = []"
proof -
  assume "set_semantics list_set"
  then have "set (list_set []) = set []" unfolding set_semantics_def by blast
  then show ?thesis by simp
qed

text \<open>
  C5. A bullet of an aggregate section is what one round of its loop appends: \<^verbatim>\<open>- \<close>, the
  item and a line feed. Whatever the records and the order in which the sets are listed,
  the report is the header, the bullets of the implementation patterns, the three further
  headings each followed by the bullets of its category, the summaries and the static
  sections; each of the four runs of bullets has at most 10 bullets, however many
  different sentences the records hold.
\<close>

theorem report_at_most_ten_bullets:
  "generate_markdown_report list_set now insights_data =
     report_header now (length insights_data)
     @ bullet_lines (section_items list_set implementation_patterns insights_data)
     @ performance_heading
     @ bullet_lines (section_items list_set performance_tips insights_data)
     @ game_heading
     @ bullet_lines (section_items list_set game_mechanics insights_data)
     @ issues_heading
     @ bullet_lines (section_items list_set common_issues insights_data)
     @ summaries_heading
     @ concat (map summary_text insights_data)
     @ static_sections
   \<and> length (section_items list_set implementation_patterns insights_data) \<le> 10
   \<and> length (section_items list_set performance_tips insights_data) \<le> 10
   \<and> length (section_items list_set game_mechanics insights_data) \<le> 10
   \<and> length (section_items list_set common_issues insights_data) \<le> 10"
proof -
  have "length (section_items list_set field insights_data) \<le> 10" for field
    by (simp add: section_items_def)
  with report_layout show ?thesis by blast
qed

theorem report_at_most_ten_bullets_witness:
  "length (remdups (concat (map implementation_patterns
      (map (\<lambda>s. \<lparr>title = ''T'', implementation_patterns = [s], performance_tips = [],
                  game_mechanics = [], common_issues = [], code_snippets = [],
                  video_id = ''v'', transcript_length = 1\<rparr>)
         [''a'', ''b'', ''c'', ''d'', ''e'', ''f'', ''g'', ''h'', ''i'', ''j'', ''k'', ''l''])))) = 12
   \<and> length (section_items remdups implementation_patterns
      (map (\<lambda>s. \<lparr>title = ''T'', implementation_patterns = [s], performance_tips = [],
                  game_mechanics = [], common_issues = [], code_snippets = [],
                  video_id = ''v'', transcript_length = 1\<rparr>)
         [''a'', ''b'', ''c'', ''d'', ''e'', ''f'', ''g'', ''h'', ''i'', ''j'', ''k'', ''l''])) \<le> 10"
  using report_at_most_ten_bullets [of remdups "''''"
      "map (\<lambda>s. \<lparr>title = ''T'', implementation_patterns = [s], performance_tips = [],
                  game_mechanics = [], common_issues = [], code_snippets = [],
                  video_id = ''v'', transcript_length = 1\<rparr>)
         [''a'', ''b'', ''c'', ''d'', ''e'', ''f'', ''g'', ''h'', ''i'', ''j'', ''k'', ''l'']"]
  by simp

lemma distinct_count_list_le_1: "distinct xs \<Longrightarrow> count_list xs x \<le> 1"
  by (induction xs) auto

text \<open>
  C6. When the sets are listed with set semantics, each aggregate section of the report
  shows the first ten of a listing without repetition of the sentences pooled for its
  category, so no section has two equal bullets, and a sentence that is in the lists of
  two records gives one bullet at most.
\<close>

theorem report_sections_deduplicated:
  assumes "set_semantics list_set"
  shows "generate_markdown_report list_set now insights_data =
           report_header now (length insights_data)
           @ bullet_lines (section_items list_set implementation_patterns insights_data)
           @ performance_heading
           @ bullet_lines (section_items list_set performance_tips insights_data)
           @ game_heading
           @ bullet_lines (section_items list_set game_mechanics insights_data)
           @ issues_heading
           @ bullet_lines (section_items list_set common_issues insights_data)
           @ summaries_heading
           @ concat (map summary_text insights_data)
           @ static_sections
         \<and> (\<forall>field \<in> {implementation_patterns, performance_tips, game_mechanics, common_issues}.
               section_items list_set field insights_data
                 = take 10 (list_set (concat (map field insights_data)))
               \<and> distinct (list_set (concat (map field insights_data)))
               \<and> set (list_set (concat (map field insights_data)))
                   = (\<Union>video \<in> set insights_data. set (field video))
               \<and> distinct (section_items list_set field insights_data)
               \<and> (\<forall>sentence. count_list (section_items list_set field insights_data) sentence \<le> 1))"
proof (rule conjI)
  show "generate_markdown_report list_set now insights_data =
           report_header now (length insights_data)
           @ bullet_lines (section_items list_set implementation_patterns insights_data)
           @ performance_heading
           @ bullet_lines (section_items list_set performance_tips insights_data)
           @ game_heading
           @ bullet_lines (section_items list_set game_mechanics insights_data)
           @ issues_heading
           @ bullet_lines (section_items list_set common_issues insights_data)
           @ summaries_heading
           @ concat (map summary_text insights_data)
           @ static_sections"
    by (rule report_layout)
next
  show "\<forall>field \<in> {implementation_patterns, performance_tips, game_mechanics, common_issues}.
               section_items list_set field insights_data
                 = take 10 (list_set (concat (map field insights_data)))
               \<and> distinct (list_set (concat (map field insights_data)))
               \<and> set (list_set (concat (map field insights_data)))
                   = (\<Union>video \<in> set insights_data. set (field video))
               \<and> distinct (section_items list_set field insights_data)
               \<and> (\<forall>sentence. count_list (section_items list_set field insights_data) sentence \<le> 1)"
  proof (rule ballI)
    fix field :: "video_insights \<Rightarrow> string list"
    have d: "distinct (section_items list_set field insights_data)"
      using assms by (rule section_items_distinct)
    have c: "\<forall>sentence. count_list (section_items list_set field insights_data) sentence \<le> 1"
      using d by (blast intro: distinct_count_list_le_1)
    have l: "distinct (list_set (concat (map field insights_data)))"
      using assms by (simp add: set_semantics_def)
    have "set (list_set (concat (map field insights_data))) = set (concat (map field insights_data))"
      using assms by (simp add: set_semantics_def)
    then have u: "set (list_set (concat (map field insights_data)))
            = (\<Union>video \<in> set insights_data. set (field video))"
      by simp
    have t: "section_items list_set field insights_data
                 = take 10 (list_set (concat (map field insights_data)))"
      by (simp only: section_items_def)
    from t l u d c
    show "section_items list_set field insights_data
                 = take 10 (list_set (concat (map field insights_data)))
               \<and> distinct (list_set (concat (map field insights_data)))
               \<and> set (list_set (concat (map field insights_data)))
                   = (\<Union>video \<in> set insights_data. set (field video))
               \<and> distinct (section_items list_set field insights_data)
               \<and> (\<forall>sentence. count_list (section_items list_set field insights_data) sentence \<le> 1)"
      by (intro conjI)
  qed
qed

theorem report_sections_deduplicated_witness:
  "set_semantics remdups
   \<and> concat (map implementation_patterns
        [\<lparr>title = ''A'', implementation_patterns = [''Create the pose detector first''],
          performance_tips = [], game_mechanics = [], common_issues = [], code_snippets = [],
          video_id = ''a'', transcript_length = 3\<rparr>,
         \<lparr>title = ''B'', implementation_patterns = [''Create the pose detector first''],
          performance_tips = [], game_mechanics = [], common_issues = [], code_snippets = [],
          video_id = ''b'', transcript_length = 5\<rparr>])
       = [''Create the pose detector first'', ''Create the pose detector first'']
   \<and> section_items remdups implementation_patterns
        [\<lparr>title = ''A'', implementation_patterns = [''Create the pose detector first''],
          performance_tips = [], game_mechanics = [], common_issues = [], code_snippets = [],
          video_id = ''a'', transcript_length = 3\<rparr>,
         \<lparr>title = ''B'', implementation_patterns = [''Create the pose detector first''],
          performance_tips = [], game_mechanics = [], common_issues = [], code_snippets = [],
          video_id = ''b'', transcript_length = 5\<rparr>]
       = [''Create the pose detector first'']"
proof -
  have h: "set_semantics remdups" by (rule set_semantics_remdups)
  show ?thesis
    using h report_sections_deduplicated [OF h, of "''''"
        "[\<lparr>title = ''A'', implementation_patterns = [''Create the pose detector first''],
          performance_tips = [], game_mechanics = [], common_issues = [], code_snippets = [],
          video_id = ''a'', transcript_length = 3\<rparr>,
         \<lparr>title = ''B'', implementation_patterns = [''Create the pose detector first''],
          performance_tips = [], game_mechanics = [], common_issues = [], code_snippets = [],
          video_id = ''b'', transcript_length = 5\<rparr>]"]
    by simp
qed

section \<open>The orchestration\<close>

lemma analyze_item_append:
  "analyze_item fetch format_transcript item acc =
     acc @ analyze_item fetch format_transcript item []"
  by (simp add: analyze_item_def Let_def split: prod.splits sum.splits)

lemma fold_analyze_item:
  "fold (analyze_item fetch format_transcript) catalog acc =
     acc @ concat (map (\<lambda>item. analyze_item fetch format_transcript item []) catalog)"
proof (induction catalog arbitrary: acc)
  case Nil
  then show ?case by simp
next
  case (Cons item catalog)
  have "fold (analyze_item fetch format_transcript) (item # catalog) acc =
          fold (analyze_item fetch format_transcript) catalog
            (acc @ analyze_item fetch format_transcript item [])"
    using analyze_item_append [of fetch format_transcript item acc] by simp
  then show ?case by (simp add: Cons.IH)
qed

lemma analyze_catalog_concat:
  "analyze_catalog fetch format_transcript catalog =
     concat (map (\<lambda>item. analyze_item fetch format_transcript item []) catalog)"
  by (simp add: analyze_catalog_def fold_analyze_item)

lemma analyze_item_failed:
  "fetch vid = Inl e \<Longrightarrow> analyze_item fetch format_transcript (vid, video_title) acc = acc"
  by (simp add: analyze_item_def)

lemma analyze_catalog_skip:
  assumes "fetch vid = Inl e"
  shows "analyze_catalog fetch format_transcript catalog =
           analyze_catalog fetch format_transcript (filter (\<lambda>item. fst item \<noteq> vid) catalog)"
  unfolding analyze_catalog_concat
proof (induction catalog)
  case Nil
  then show ?case by simp
next
  case (Cons item catalog)
  obtain v t where item: "item = (v, t)" by (cases item)
  show ?case
  proof (cases "v = vid")
    case True
    with assms item have "analyze_item fetch format_transcript item [] = []"
      by (simp add: analyze_item_failed)
    with True item Cons show ?thesis by simp
  next
    case False
    with item Cons show ?thesis by simp
  qed
qed

lemma empty_report:
  assumes "set_semantics list_set"
  shows "generate_markdown_report list_set now [] =
           report_header now 0 @ performance_heading @ game_heading @ issues_heading
           @ summaries_heading @ static_sections"
  using set_semantics_Nil [OF assms]
  by (simp add: report_layout section_items_def bullet_lines_def)

text \<open>
  C8. When the fetch of an item raises, the loop adds no record for the item and goes on:
  the result is that of the catalogue without the item. A catalogue of that one item gives
  no record at all, and the report of no record has nothing between the heading of the
  video summaries and the static sections, which stand at its end as they are written.
\<close>

theorem failed_fetch_is_skipped:
  assumes "fetch vid = Inl e" and "set_semantics list_set"
  shows "analyze_catalog fetch format_transcript catalog =
           analyze_catalog fetch format_transcript (filter (\<lambda>item. fst item \<noteq> vid) catalog)
         \<and> analyze_videos fetch format_transcript =
           analyze_catalog fetch format_transcript (filter (\<lambda>item. fst item \<noteq> vid) VIDEO_IDS)
         \<and> analyze_catalog fetch format_transcript [(vid, video_title)] = []
         \<and> length (analyze_catalog fetch format_transcript [(vid, video_title)]) = 0
         \<and> generate_markdown_report list_set now
             (analyze_catalog fetch format_transcript [(vid, video_title)]) =
           report_header now 0 @ performance_heading @ game_heading @ issues_heading
           @ summaries_heading @ static_sections"
proof -
  have one: "analyze_catalog fetch format_transcript [(vid, video_title)] = []"
    using assms(1) by (simp add: analyze_catalog_def analyze_item_failed)
  have "analyze_videos fetch format_transcript =
          analyze_catalog fetch format_transcript (filter (\<lambda>item. fst item \<noteq> vid) VIDEO_IDS)"
    unfolding analyze_videos_def using assms(1) by (rule analyze_catalog_skip)
  moreover have "analyze_catalog fetch format_transcript catalog =
           analyze_catalog fetch format_transcript (filter (\<lambda>item. fst item \<noteq> vid) catalog)"
    using assms(1) by (rule analyze_catalog_skip)
  ultimately show ?thesis
    using one empty_report [OF assms(2)] by simp
qed

theorem failed_fetch_is_skipped_witness:
  "set_semantics remdups
   \<and> analyze_catalog
       (\<lambda>v. if v = ''OhMs-ipk8gE'' then Inl ''no transcript''
            else Inr [''We create the game.'', ''It is fast!''])
       (\<lambda>segments. Inr (concat segments))
       [(''OhMs-ipk8gE'', ''MediaPipe Pose Detection in JavaScript'')] = []
   \<and> generate_markdown_report remdups ''2026-01-01 00:00:00''
       (analyze_catalog
          (\<lambda>v. if v = ''OhMs-ipk8gE'' then Inl ''no transcript''
               else Inr [''We create the game.'', ''It is fast!''])
          (\<lambda>segments. Inr (concat segments))
          [(''OhMs-ipk8gE'', ''MediaPipe Pose Detection in JavaScript'')]) =
     report_header ''2026-01-01 00:00:00'' 0 @ performance_heading @ game_heading
     @ issues_heading @ summaries_heading @ static_sections"
proof -
  let ?fetch = "\<lambda>v. if v = ''OhMs-ipk8gE'' then Inl ''no transcript''
                    else Inr [''We create the game.'', ''It is fast!'']"
  have f: "?fetch ''OhMs-ipk8gE'' = Inl ''no transcript''" by simp
  have h: "set_semantics remdups" by (rule set_semantics_remdups)
  note skipped = failed_fetch_is_skipped
      [where fetch = ?fetch and vid = "''OhMs-ipk8gE''" and e = "''no transcript''"
         and list_set = remdups and format_transcript = "\<lambda>segments. Inr (concat segments)"
         and catalog = "[]" and video_title = "''MediaPipe Pose Detection in JavaScript''"
         and now = "''2026-01-01 00:00:00''", OF f h]
  from skipped h show ?thesis by (intro conjI) (elim conjE, assumption)+
qed

lemma distinct_singleton_set:
  assumes "distinct xs" and "set xs = {x}"
  shows "xs = [x]"
proof (cases xs)
  case Nil
  with assms(2) show ?thesis by simp
next
  case (Cons y ys)
  with assms(2) have y: "y = x" by auto
  from Cons assms y have "set ys \<subseteq> {x}" and "x \<notin> set ys" by auto
  then have "ys = []" by (cases ys) auto
  with Cons y show ?thesis by simp
qed

text \<open>
  C10. A record is not deduplicated: the text in which the sentence
  \<^verbatim>\<open>Initialize the player position carefully\<close> stands twice gives a record that has it
  twice among its implementation patterns. The report is where a repetition goes away:
  the aggregate section of a record with this list shows the sentence once.
\<close>

theorem repeated_sentence_is_kept:
  "implementation_patterns
     (extract_key_insights
        ''Initialize the player position carefully. Initialize the player position carefully.''
        ''Demo'') =
     [''Initialize the player position carefully'', ''Initialize the player position carefully'']
   \<and> (\<forall>list_set video.
         set_semantics list_set
         \<and> implementation_patterns video =
             implementation_patterns
               (extract_key_insights
                  ''Initialize the player position carefully. Initialize the player position carefully.''
                  ''Demo'')
         \<longrightarrow> section_items list_set implementation_patterns [video] =
               [''Initialize the player position carefully''])"
proof -
  let ?s = "''Initialize the player position carefully''"
  have twice: "implementation_patterns
     (extract_key_insights
        ''Initialize the player position carefully. Initialize the player position carefully.''
        ''Demo'') = [?s, ?s]"
    by code_simp
  have "section_items list_set implementation_patterns [video] = [?s]"
    if sem: "set_semantics list_set" and v: "implementation_patterns video = [?s, ?s]"
    for list_set and video :: video_insights
  proof -
    from sem have "distinct (list_set [?s, ?s])" and "set (list_set [?s, ?s]) = {?s}"
      by (simp_all add: set_semantics_def)
    then have "list_set [?s, ?s] = [?s]" by (rule distinct_singleton_set)
    with v show ?thesis by (simp add: section_items_def)
  qed
  with twice show ?thesis by simp
qed

theorem repeated_sentence_is_kept_witness:
  "set_semantics remdups
   \<and> section_items remdups implementation_patterns
       [\<lparr>title = ''Demo'',
         implementation_patterns =
           implementation_patterns
             (extract_key_insights
                ''Initialize the player position carefully. Initialize the player position carefully.''
                ''Demo''),
         performance_tips = [], game_mechanics = [], common_issues = [], code_snippets = [],
         video_id = ''demo'', transcript_length = 2\<rparr>] =
     [''Initialize the player position carefully'']"
proof -
  have h: "set_semantics remdups" by (rule set_semantics_remdups)
  with repeated_sentence_is_kept show ?thesis by simp
qed

end
